theory Spec2Isabelle
  imports Complex_Main "HOL-Library.Word"
begin

section \<open>The news crawler of \<^verbatim>\<open>news.js\<close>\<close>

text \<open>
  The program fetches the pages of a fixed list of news sites, extracts headline records
  with the cheerio selectors, removes duplicate titles, writes a Markdown digest and commits
  it with simple-git. The embedding below follows \<^verbatim>\<open>src/news.js\<close> function by function.

  What the libraries answer (axios, cheerio, the WHATWG \<^verbatim>\<open>URL\<close> class, \<^verbatim>\<open>Date\<close>,
  \<^verbatim>\<open>Math.random\<close>, \<^verbatim>\<open>fs\<close>, simple-git) is not code of the program: it is a parameter
  \<open>env\<close> of every function. What the program does to the outside (files written, calls
  made, in their order) is kept in an explicit \<open>world\<close>. An exception is a value \<open>Inl e\<close>.
  The calls of the winston logger only report; they are left out.
\<close>

subsection \<open>JavaScript strings\<close>

text \<open>
  A JavaScript string is a sequence of UTF-16 code units and \<^verbatim>\<open>s.length\<close> counts them.
  ASCII literals of the source are written \<open>ascii ''...''\<close>; the Chinese literals are given
  by their code units.
\<close>

type_synonym jsstring = "16 word list"

definition ascii :: "string \<Rightarrow> jsstring" where
  "ascii s = map of_char s"

text \<open>\<^verbatim>\<open>String.prototype.startsWith\<close> and \<^verbatim>\<open>String.prototype.includes\<close>.\<close>

definition startsWith :: "jsstring \<Rightarrow> jsstring \<Rightarrow> bool" where
  "startsWith s p \<longleftrightarrow> take (length p) s = p"

fun str_includes :: "jsstring \<Rightarrow> jsstring \<Rightarrow> bool" where
  "str_includes [] p = (p = [])"
| "str_includes (c # s) p = (startsWith (c # s) p \<or> str_includes s p)"

text \<open>
  \<^verbatim>\<open>String.prototype.trim\<close> strips the ECMAScript WhiteSpace and LineTerminator code
  points from both ends.
\<close>

definition is_white_space :: "16 word \<Rightarrow> bool" where
  "is_white_space c \<longleftrightarrow>
     c = 0x9 \<or> c = 0xA \<or> c = 0xB \<or> c = 0xC \<or> c = 0xD \<or> c = 0x20 \<or> c = 0xA0 \<or>
     c = 0x1680 \<or> (0x2000 \<le> c \<and> c \<le> 0x200A) \<or> c = 0x2028 \<or> c = 0x2029 \<or>
     c = 0x202F \<or> c = 0x205F \<or> c = 0x3000 \<or> c = 0xFEFF"

definition trim :: "jsstring \<Rightarrow> jsstring" where
  "trim s = rev (dropWhile is_white_space (rev (dropWhile is_white_space s)))"

text \<open>\<^verbatim>\<open>s.replace(/c/g, r)\<close> for a single code unit \<open>c\<close>: every occurrence becomes \<open>r\<close>.\<close>

definition replace_all :: "16 word \<Rightarrow> jsstring \<Rightarrow> jsstring \<Rightarrow> jsstring" where
  "replace_all c r s = concat (map (\<lambda>x. if x = c then r else [x]) s)"

text \<open>\<^verbatim>\<open>String(n)\<close> for a non-negative integer, and \<^verbatim>\<open>padStart(2, "0")\<close>.\<close>

fun String_of_nat :: "nat \<Rightarrow> jsstring" where
  "String_of_nat n =
     (if n < 10 then [of_nat (48 + n)]
      else String_of_nat (n div 10) @ [of_nat (48 + n mod 10)])"

definition padStart2 :: "jsstring \<Rightarrow> jsstring" where
  "padStart2 s = (if length s < 2 then replicate (2 - length s) 0x30 @ s else s)"

subsection \<open>Data model\<close>

text \<open>The object literal pushed onto \<^verbatim>\<open>newsItems\<close>.\<close>

record news_item =
  title :: jsstring
  link :: jsstring
  summary :: jsstring
  crawl_time :: jsstring
  source :: jsstring

text \<open>
  What cheerio answers for one matched element. A card is an element of
  \<^verbatim>\<open>$(".news-item, .ty-card-type1, .ty-card-type2")\<close>: the text of
  \<^verbatim>\<open>find("h2, .ty-card-tt, .news-title")\<close>, the text of \<^verbatim>\<open>find("a").first()\<close> and
  \<^verbatim>\<open>find("a").attr("href")\<close> (\<open>None\<close> is \<^verbatim>\<open>undefined\<close>).
\<close>

record card =
  heading_text :: jsstring
  first_anchor_text :: jsstring
  card_href :: "jsstring option"

text \<open>
  A row is an element of \<^verbatim>\<open>$(".list_a li, .data-list li")\<close> (text of
  \<^verbatim>\<open>find("a, span").first()\<close>) or of \<^verbatim>\<open>$(".news_title, .data_row, .news_item")\<close>
  (text of \<^verbatim>\<open>find("h3, .title, a").first()\<close>), with \<^verbatim>\<open>find("a").attr("href")\<close>.
\<close>

record row =
  first_text :: jsstring
  row_href :: "jsstring option"

text \<open>An element of \<^verbatim>\<open>$("a")\<close>: \<^verbatim>\<open>attr("href")\<close> and \<^verbatim>\<open>text()\<close>.\<close>

record anchor =
  href :: "jsstring option"
  anchor_text :: jsstring

record page =
  sina_cards :: "card list"
  sina_hot :: "row list"
  netease_rows :: "row list"
  anchors :: "anchor list"

text \<open>A \<^verbatim>\<open>Date\<close> object, as far as the program reads it.\<close>

record date =
  toISOString :: jsstring
  getFullYear :: nat
  getMonth :: nat
  getDate :: nat
  toLocaleDateString_zh :: jsstring
  toLocaleString_zh :: jsstring

text \<open>What \<^verbatim>\<open>git.status()\<close> resolves to, as far as the program reads it.\<close>

record status_result =
  modified :: "jsstring list"
  not_added :: "jsstring list"

datatype exn = NetworkError | TypeError | FsError | GitError

text \<open>The calls the program makes to the outside, in the order it makes them.\<close>

datatype event =
    HttpGet jsstring
  | WriteFile jsstring jsstring
  | SetTimeout rat
  | GitStatus
  | GitAdd jsstring
  | GitCommit jsstring
  | GitPush jsstring jsstring

record world =
  files :: "jsstring \<Rightarrow> jsstring option"
  trace :: "event list"
  clock_reads :: nat
  random_draws :: nat

text \<open>
  The environment: \<open>Inl e\<close> is a thrown exception or a rejected promise. The \<open>k\<close>-th
  \<^verbatim>\<open>new Date()\<close> of a run is \<open>date_now k\<close>, the \<open>k\<close>-th \<^verbatim>\<open>Math.random()\<close> is
  \<open>math_random k\<close>.
\<close>

record env =
  axios_get :: "jsstring \<Rightarrow> exn + jsstring"
  cheerio_load :: "jsstring \<Rightarrow> exn + page"
  url_href :: "jsstring \<Rightarrow> jsstring \<Rightarrow> exn + jsstring"
  url_hostname :: "jsstring \<Rightarrow> exn + jsstring"
  date_now :: "nat \<Rightarrow> date"
  math_random :: "nat \<Rightarrow> rat"
  write_error :: "jsstring \<Rightarrow> exn option"
  git_status :: "(jsstring \<Rightarrow> jsstring option) \<Rightarrow> exn + status_result"
  git_add :: "jsstring \<Rightarrow> exn option"
  git_commit :: "jsstring \<Rightarrow> exn option"
  git_push :: "jsstring \<Rightarrow> jsstring \<Rightarrow> exn option"

definition new_Date :: "env \<Rightarrow> world \<Rightarrow> date \<times> world" where
  "new_Date e w = (date_now e (clock_reads w), w\<lparr>clock_reads := Suc (clock_reads w)\<rparr>)"

subsection \<open>parseNews\<close>

definition summary_hot :: jsstring where
  "summary_hot = [0x70ED, 0x95E8, 0x65B0, 0x95FB]"

definition source_sina :: jsstring where
  "source_sina = [0x65B0, 0x6D6A, 0x65B0, 0x95FB]"

definition summary_weibo :: jsstring where
  "summary_weibo = [0x70ED, 0x699C, 0x65B0, 0x95FB, 0xFF0C, 0x65E0, 0x6458, 0x8981]"

definition source_weibo :: jsstring where
  "source_weibo = [0x65B0, 0x6D6A, 0x5FAE, 0x535A, 0x70ED, 0x641C]"

definition summary_netease :: jsstring where
  "summary_netease = [0x7F51, 0x6613, 0x65B0, 0x95FB, 0xFF0C, 0x65E0, 0x6458, 0x8981]"

definition source_netease :: jsstring where
  "source_netease = [0x7F51, 0x6613, 0x65B0, 0x95FB]"

definition summary_generic :: jsstring where
  "summary_generic = [0x901A, 0x7528, 0x722C, 0x53D6, 0xFF0C, 0x65E0, 0x6458, 0x8981]"

text \<open>
  \<^verbatim>\<open>link.startsWith("http") ? link : new URL(link, this.url).href\<close>; the constructor
  throws on a link it cannot resolve.
\<close>

definition fullLink :: "env \<Rightarrow> jsstring \<Rightarrow> jsstring \<Rightarrow> exn + jsstring" where
  "fullLink e url l = (if startsWith l (ascii ''http'') then Inr l else url_href e l url)"

text \<open>
  The body shared by the three site-specific callbacks, after title and link are read:
  \<^verbatim>\<open>if (title && link) { fullLink = ...; newsItems.push({...}) }\<close> inside
  \<^verbatim>\<open>try { } catch (e) { logger.warn(...) }\<close>. The state is \<^verbatim>\<open>newsItems\<close> and the world.
\<close>

definition push_if_titled ::
  "env \<Rightarrow> jsstring \<Rightarrow> jsstring \<Rightarrow> jsstring \<Rightarrow> jsstring \<Rightarrow> jsstring option \<Rightarrow>
   news_item list \<times> world \<Rightarrow> news_item list \<times> world" where
  "push_if_titled e url summ src t l st =
     (case l of
        None \<Rightarrow> st
      | Some lnk \<Rightarrow>
          if t \<noteq> [] \<and> lnk \<noteq> [] then
            (case fullLink e url lnk of
               Inl err \<Rightarrow> st
             | Inr fl \<Rightarrow>
                 (let (d, w') = new_Date e (snd st)
                  in (fst st @ [\<lparr>title = t, link = fl, summary = summ,
                                 crawl_time = toISOString d, source = src\<rparr>], w')))
          else st)"

definition sina_card_each ::
  "env \<Rightarrow> jsstring \<Rightarrow> news_item list \<times> world \<Rightarrow> card \<Rightarrow> news_item list \<times> world" where
  "sina_card_each e url st el =
     (let t = (if trim (heading_text el) \<noteq> [] then trim (heading_text el)
               else trim (first_anchor_text el))
      in push_if_titled e url summary_hot source_sina t (card_href el) st)"

definition sina_hot_each ::
  "env \<Rightarrow> jsstring \<Rightarrow> news_item list \<times> world \<Rightarrow> row \<Rightarrow> news_item list \<times> world" where
  "sina_hot_each e url st el =
     push_if_titled e url summary_weibo source_weibo (trim (first_text el)) (row_href el) st"

definition netease_each ::
  "env \<Rightarrow> jsstring \<Rightarrow> news_item list \<times> world \<Rightarrow> row \<Rightarrow> news_item list \<times> world" where
  "netease_each e url st el =
     push_if_titled e url summary_netease source_netease (trim (first_text el)) (row_href el) st"

text \<open>The regular expression \<^verbatim>\<open>/^(javascript|mailto|tel):/\<close>, which has no flag.\<close>

definition scheme_regex_test :: "jsstring \<Rightarrow> bool" where
  "scheme_regex_test h \<longleftrightarrow>
     startsWith h (ascii ''javascript:'') \<or> startsWith h (ascii ''mailto:'') \<or>
     startsWith h (ascii ''tel:'')"

text \<open>The condition of the \<^verbatim>\<open>if\<close> in the generic callback.\<close>

definition anchor_filter :: "jsstring \<Rightarrow> jsstring option \<Rightarrow> bool" where
  "anchor_filter text h \<longleftrightarrow>
     (case h of
        None \<Rightarrow> False
      | Some hr \<Rightarrow> text \<noteq> [] \<and> hr \<noteq> [] \<and> length text > 10 \<and> length text < 100 \<and>
                   \<not> scheme_regex_test hr)"

text \<open>
  The generic callback. Inside its \<^verbatim>\<open>try\<close> the link is resolved first; the object
  literal then reads the clock before \<^verbatim>\<open>new URL(this.url).hostname\<close>, which may still
  throw; the empty \<^verbatim>\<open>catch\<close> drops the anchor.
\<close>

definition anchor_each ::
  "env \<Rightarrow> jsstring \<Rightarrow> news_item list \<times> world \<Rightarrow> anchor \<Rightarrow> news_item list \<times> world" where
  "anchor_each e url st el =
     (let text = trim (anchor_text el)
      in case href el of
           None \<Rightarrow> st
         | Some hr \<Rightarrow>
             if anchor_filter text (Some hr) then
               (case fullLink e url hr of
                  Inl err \<Rightarrow> st
                | Inr fl \<Rightarrow>
                    (let (d, w') = new_Date e (snd st)
                     in case url_hostname e url of
                          Inl err \<Rightarrow> (fst st, w')
                        | Inr host \<Rightarrow>
                            (fst st @ [\<lparr>title = text, link = fl, summary = summary_generic,
                                         crawl_time = toISOString d, source = host\<rparr>], w')))
             else st)"

text \<open>The \<^verbatim>\<open>if / else if\<close> on \<^verbatim>\<open>this.url\<close> with its \<^verbatim>\<open>.each\<close> loops.\<close>

definition site_passes ::
  "env \<Rightarrow> jsstring \<Rightarrow> page \<Rightarrow> news_item list \<times> world \<Rightarrow> news_item list \<times> world" where
  "site_passes e url pg st =
     (if str_includes url (ascii ''sina.com.cn'') then
        foldl (sina_hot_each e url) (foldl (sina_card_each e url) st (sina_cards pg)) (sina_hot pg)
      else if str_includes url (ascii ''163.com'') then
        foldl (netease_each e url) st (netease_rows pg)
      else st)"

definition generic_pass ::
  "env \<Rightarrow> jsstring \<Rightarrow> page \<Rightarrow> news_item list \<times> world \<Rightarrow> news_item list \<times> world" where
  "generic_pass e url pg st = foldl (anchor_each e url) st (anchors pg)"

text \<open>\<^verbatim>\<open>newsItems\<close> as it stands before the deduplication.\<close>

definition collect :: "env \<Rightarrow> jsstring \<Rightarrow> page \<Rightarrow> world \<Rightarrow> news_item list \<times> world" where
  "collect e url pg w =
     (let st = site_passes e url pg ([], w)
      in if length (fst st) = 0 then generic_pass e url pg st else st)"

text \<open>
  A JavaScript \<^verbatim>\<open>Map\<close> keeps its entries in the order in which their keys were first
  set; setting a key that is present replaces the value where it stands.
\<close>

fun Map_set :: "('k \<times> 'v) list \<Rightarrow> 'k \<Rightarrow> 'v \<Rightarrow> ('k \<times> 'v) list" where
  "Map_set [] k v = [(k, v)]"
| "Map_set ((k', v') # m) k v =
     (if k' = k then (k, v) # m else (k', v') # Map_set m k v)"

abbreviation (input) Map_step :: "('k \<times> 'v) list \<Rightarrow> 'k \<times> 'v \<Rightarrow> ('k \<times> 'v) list" where
  "Map_step \<equiv> (\<lambda>m (k, v). Map_set m k v)"

definition new_Map :: "('k \<times> 'v) list \<Rightarrow> ('k \<times> 'v) list" where
  "new_Map entries = foldl Map_step [] entries"

definition Map_values :: "('k \<times> 'v) list \<Rightarrow> 'v list" where
  "Map_values m = map snd m"

text \<open>\<^verbatim>\<open>Array.from(new Map(newsItems.map((item) => [item.title, item])).values())\<close>\<close>

definition uniqueNews :: "news_item list \<Rightarrow> news_item list" where
  "uniqueNews newsItems = Map_values (new_Map (map (\<lambda>item. (title item, item)) newsItems))"

text \<open>
  \<^verbatim>\<open>parseNews\<close> of a crawler built for \<open>url\<close>. The outer \<^verbatim>\<open>catch\<close> answers the empty
  array; inside the \<^verbatim>\<open>try\<close> only \<^verbatim>\<open>cheerio.load\<close> is outside a callback's own handler.
\<close>

definition parseNews :: "env \<Rightarrow> jsstring \<Rightarrow> jsstring \<Rightarrow> world \<Rightarrow> news_item list \<times> world" where
  "parseNews e url html w =
     (case cheerio_load e html of
        Inl err \<Rightarrow> ([], w)
      | Inr pg \<Rightarrow> (let (newsItems, w') = collect e url pg w in (uniqueNews newsItems, w')))"

subsection \<open>Effects and exceptions\<close>

text \<open>
  A computation takes the world and gives a result or an exception together with the
  world it leaves. \<open>io_catch\<close> is \<^verbatim>\<open>try { } catch (error) { }\<close>.
\<close>

type_synonym 'a io = "world \<Rightarrow> (exn + 'a) \<times> world"

definition io_return :: "'a \<Rightarrow> 'a io" where
  "io_return x w = (Inr x, w)"

definition io_bind :: "'a io \<Rightarrow> ('a \<Rightarrow> 'b io) \<Rightarrow> 'b io" where
  "io_bind m f w = (case m w of (Inl err, w') \<Rightarrow> (Inl err, w') | (Inr x, w') \<Rightarrow> f x w')"

definition io_catch :: "'a io \<Rightarrow> (exn \<Rightarrow> 'a io) \<Rightarrow> 'a io" where
  "io_catch m h w = (case m w of (Inl err, w') \<Rightarrow> h err w' | (Inr x, w') \<Rightarrow> (Inr x, w'))"

definition io_new_Date :: "env \<Rightarrow> date io" where
  "io_new_Date e w = (let (d, w') = new_Date e w in (Inr d, w'))"

definition record_call :: "event \<Rightarrow> world \<Rightarrow> world" where
  "record_call ev w = w\<lparr>trace := trace w @ [ev]\<rparr>"

text \<open>\<^verbatim>\<open>fs.writeFileSync(path, content)\<close>: creates or overwrites the file, or throws.\<close>

definition writeFileSync :: "env \<Rightarrow> jsstring \<Rightarrow> jsstring \<Rightarrow> unit io" where
  "writeFileSync e path content w =
     (let w' = record_call (WriteFile path content) w
      in case write_error e path of
           Some err \<Rightarrow> (Inl err, w')
         | None \<Rightarrow> (Inr (), w'\<lparr>files := (files w')(path \<mapsto> content)\<rparr>))"

text \<open>A call of simple-git that resolves to nothing or rejects.\<close>

definition git_call :: "event \<Rightarrow> exn option \<Rightarrow> unit io" where
  "git_call ev outcome w =
     (case outcome of
        Some err \<Rightarrow> (Inl err, record_call ev w)
      | None \<Rightarrow> (Inr (), record_call ev w))"

subsection \<open>commitToGitHub\<close>

definition commit_message :: "date \<Rightarrow> jsstring" where
  "commit_message now =
     [0x66F4, 0x65B0, 0x6BCF, 0x65E5, 0x65B0, 0x95FB, 0x20] @
     takeWhile (\<lambda>c. c \<noteq> 0x54) (toISOString now)"

definition commitToGitHub :: "env \<Rightarrow> jsstring \<Rightarrow> bool io" where
  "commitToGitHub e filePath =
     io_catch
       (io_bind (\<lambda>w. (git_status e (files w), record_call GitStatus w)) (\<lambda>status.
          if filePath \<notin> set (modified status) \<and> filePath \<notin> set (not_added status) then
            io_return False
          else
            io_bind (io_new_Date e) (\<lambda>now.
            io_bind (git_call (GitAdd filePath) (git_add e filePath)) (\<lambda>_.
            io_bind (git_call (GitCommit (commit_message now))
                       (git_commit e (commit_message now))) (\<lambda>_.
            io_bind (git_call (GitPush (ascii ''origin'') (ascii ''main''))
                       (git_push e (ascii ''origin'') (ascii ''main''))) (\<lambda>_.
            io_return True))))))
       (\<lambda>error. io_return False)"

subsection \<open>fetchPage\<close>

text \<open>The \<^verbatim>\<open>catch\<close> of \<^verbatim>\<open>fetchPage\<close> logs and throws the error again.\<close>

definition fetchPage :: "env \<Rightarrow> jsstring \<Rightarrow> jsstring io" where
  "fetchPage e url =
     io_catch (\<lambda>w. (axios_get e url, record_call (HttpGet url) w))
       (\<lambda>error w. (Inl error, w))"

subsection \<open>saveToMarkdown\<close>

text \<open>
  \<^verbatim>\<open>`${year}${month}${day}.md`\<close> with \<^verbatim>\<open>month = String(now.getMonth() + 1).padStart(2, "0")\<close>
  and \<^verbatim>\<open>day = String(now.getDate()).padStart(2, "0")\<close>.
\<close>

definition dated_md_name :: "date \<Rightarrow> jsstring" where
  "dated_md_name now =
     String_of_nat (getFullYear now) @ padStart2 (String_of_nat (getMonth now + 1)) @
     padStart2 (String_of_nat (getDate now)) @ ascii ''.md''"

text \<open>
  \<^verbatim>\<open>newsBySource\<close> is an object literal \<^verbatim>\<open>{}\<close>, here the list of its own properties in
  the order of their creation. Reading a key it does not own finds the properties it
  inherits from \<^verbatim>\<open>Object.prototype\<close>: they are truthy, so no array is stored, and they
  have no \<^verbatim>\<open>push\<close>, so the call throws a TypeError.
\<close>

definition Object_prototype_keys :: "jsstring list" where
  "Object_prototype_keys =
     map ascii [''constructor'', ''__defineGetter__'', ''__defineSetter__'', ''hasOwnProperty'',
       ''__lookupGetter__'', ''__lookupSetter__'', ''isPrototypeOf'', ''propertyIsEnumerable'',
       ''toString'', ''valueOf'', ''__proto__'', ''toLocaleString'']"

fun group_by_source ::
  "(jsstring \<times> news_item list) list \<Rightarrow> news_item list \<Rightarrow>
   exn + (jsstring \<times> news_item list) list" where
  "group_by_source newsBySource [] = Inr newsBySource"
| "group_by_source newsBySource (item # rest) =
     (case map_of newsBySource (source item) of
        Some its \<Rightarrow> group_by_source (Map_set newsBySource (source item) (its @ [item])) rest
      | None \<Rightarrow>
          if source item \<in> set Object_prototype_keys then Inl TypeError
          else group_by_source (newsBySource @ [(source item, [item])]) rest)"

text \<open>
  \<^verbatim>\<open>Object.entries\<close> lists the keys that are array indices (canonical decimal numerals
  below \<open>2^32 - 1\<close>) first, in ascending order, then the other keys in the order of their
  creation.
\<close>

definition nat_of_digits :: "jsstring \<Rightarrow> nat" where
  "nat_of_digits s = foldl (\<lambda>n c. 10 * n + (unat c - 48)) 0 s"

definition array_index :: "jsstring \<Rightarrow> nat option" where
  "array_index s =
     (if s \<noteq> [] \<and> list_all (\<lambda>c. 0x30 \<le> c \<and> c \<le> 0x39) s \<and> (hd s \<noteq> 0x30 \<or> length s = 1) \<and>
         nat_of_digits s < 2 ^ 32 - 1
      then Some (nat_of_digits s) else None)"

definition Object_entries :: "(jsstring \<times> 'v) list \<Rightarrow> (jsstring \<times> 'v) list" where
  "Object_entries obj =
     sort_key (\<lambda>p. the (array_index (fst p))) (filter (\<lambda>p. array_index (fst p) \<noteq> None) obj) @
     filter (\<lambda>p. array_index (fst p) = None) obj"

definition md_row :: "news_item \<Rightarrow> jsstring" where
  "md_row item =
     ascii ''| '' @ replace_all 0x7C [0x5C, 0x7C] (title item) @
     ascii '' | ['' @ [0x94FE, 0x63A5] @ ascii '']('' @ link item @ ascii '') |'' @ [0xA]"

definition md_section :: "jsstring \<times> news_item list \<Rightarrow> jsstring" where
  "md_section p =
     ascii ''## '' @ fst p @ [0xA, 0xA] @
     ascii ''| '' @ [0x6807, 0x9898] @ ascii '' | '' @ [0x94FE, 0x63A5] @ ascii '' |'' @ [0xA] @
     ascii ''| ---- | ---- |'' @ [0xA] @
     concat (map md_row (snd p)) @ [0xA]"

definition md_header :: "date \<Rightarrow> jsstring" where
  "md_header d =
     [0x23, 0x20, 0x6BCF, 0x65E5, 0x65B0, 0x95FB, 0x6458, 0x8981, 0x20] @
     toLocaleDateString_zh d @ [0xA, 0xA]"

definition md_footer :: "date \<Rightarrow> jsstring" where
  "md_footer d =
     [0xA, 0x3E, 0x20, 0x722C, 0x53D6, 0x65F6, 0x95F4, 0x3A, 0x20] @ toLocaleString_zh d @ [0xA]"

text \<open>
  The statements of the \<^verbatim>\<open>try\<close> block that build \<^verbatim>\<open>mdContent\<close>: the heading with
  the date, the grouping, one section for each source, the line with the time.
\<close>

definition build_mdContent :: "env \<Rightarrow> news_item list \<Rightarrow> jsstring io" where
  "build_mdContent e items =
     io_bind (io_new_Date e) (\<lambda>d1.
     io_bind (\<lambda>w. (group_by_source [] items, w)) (\<lambda>newsBySource.
     io_bind (io_new_Date e) (\<lambda>d2.
     io_return (md_header d1 @ concat (map md_section (Object_entries newsBySource)) @
                md_footer d2))))"

text \<open>
  \<open>newsItems = None\<close> is a \<^verbatim>\<open>null\<close> or \<^verbatim>\<open>undefined\<close> argument; \<open>filename = None\<close> is
  an omitted or \<^verbatim>\<open>null\<close> file name, and the empty string is falsy as well:
  \<^verbatim>\<open>if (!filename)\<close> then reads the clock for the dated name.
\<close>

definition md_filename :: "env \<Rightarrow> jsstring option \<Rightarrow> jsstring io" where
  "md_filename e filename =
     (case filename of
        None \<Rightarrow> io_bind (io_new_Date e) (\<lambda>now. io_return (dated_md_name now))
      | Some f \<Rightarrow>
          if f = [] then io_bind (io_new_Date e) (\<lambda>now. io_return (dated_md_name now))
          else io_return f)"

definition saveToMarkdown :: "env \<Rightarrow> news_item list option \<Rightarrow> jsstring option \<Rightarrow> bool io" where
  "saveToMarkdown e newsItems filename =
     (case newsItems of
        None \<Rightarrow> io_return False
      | Some items \<Rightarrow>
          if length items = 0 then io_return False
          else
            io_bind (md_filename e filename) (\<lambda>filename.
            io_catch
              (io_bind (build_mdContent e items) (\<lambda>mdContent.
               io_bind (writeFileSync e filename mdContent) (\<lambda>_.
               io_return True)))
              (\<lambda>error. io_return False)))"

subsection \<open>saveToCsv\<close>

definition csv_header :: jsstring where
  "csv_header =
     [0xFEFF] @ [0x6807, 0x9898, 0x2C, 0x94FE, 0x63A5, 0x2C, 0x6458, 0x8981, 0x2C,
                 0x722C, 0x53D6, 0x65F6, 0x95F4, 0x2C, 0x6765, 0x6E90, 0xA]"

text \<open>
  The two replacements made on the title and on the summary: every \<^verbatim>\<open>"\<close> becomes two,
  then every \<^verbatim>\<open>,\<close> becomes the full-width comma U+FF0C.
\<close>

definition csv_text :: "jsstring \<Rightarrow> jsstring" where
  "csv_text x = replace_all 0x2C [0xFF0C] (replace_all 0x22 [0x22, 0x22] x)"

text \<open>The text appended to \<^verbatim>\<open>csvContent\<close> for one item.\<close>

definition csv_line :: "news_item \<Rightarrow> jsstring" where
  "csv_line item =
     (let title = csv_text (title item);
          link = link item;
          summary = csv_text (if summary item \<noteq> [] then summary item else []);
          time = crawl_time item;
          source = source item
      in [0x22] @ title @ [0x22, 0x2C, 0x22] @ link @ [0x22, 0x2C, 0x22] @ summary @
         [0x22, 0x2C, 0x22] @ time @ [0x22, 0x2C, 0x22] @ source @ [0x22, 0xA])"

text \<open>\<^verbatim>\<open>`news_${date}.csv`\<close> with the date part of the ISO time, its hyphens removed.\<close>

definition dated_csv_name :: "date \<Rightarrow> jsstring" where
  "dated_csv_name now =
     ascii ''news_'' @ replace_all 0x2D [] (takeWhile (\<lambda>c. c \<noteq> 0x54) (toISOString now)) @
     ascii ''.csv''"

definition csv_filename :: "env \<Rightarrow> jsstring option \<Rightarrow> jsstring io" where
  "csv_filename e filename =
     (case filename of
        None \<Rightarrow> io_bind (io_new_Date e) (\<lambda>now. io_return (dated_csv_name now))
      | Some f \<Rightarrow>
          if f = [] then io_bind (io_new_Date e) (\<lambda>now. io_return (dated_csv_name now))
          else io_return f)"

definition saveToCsv :: "env \<Rightarrow> news_item list option \<Rightarrow> jsstring option \<Rightarrow> bool io" where
  "saveToCsv e newsItems filename =
     (case newsItems of
        None \<Rightarrow> io_return False
      | Some items \<Rightarrow>
          if length items = 0 then io_return False
          else
            io_bind (csv_filename e filename) (\<lambda>filename.
            io_catch
              (io_bind (writeFileSync e filename (csv_header @ concat (map csv_line items))) (\<lambda>_.
               io_return True))
              (\<lambda>error. io_return False)))"

subsection \<open>run\<close>

text \<open>
  \<^verbatim>\<open>async run(filename = null, debug = true)\<close>: an argument that is left out is \<open>None\<close>
  and takes the default.
\<close>

definition debug_html_path :: jsstring where
  "debug_html_path = ascii ''debug_html.html''"

definition run :: "env \<Rightarrow> jsstring \<Rightarrow> jsstring option \<Rightarrow> bool option \<Rightarrow> news_item list io" where
  "run e url filename debug =
     io_catch
       (io_bind (fetchPage e url) (\<lambda>html.
        io_bind (if (case debug of None \<Rightarrow> True | Some b \<Rightarrow> b)
                 then writeFileSync e debug_html_path html else io_return ()) (\<lambda>_.
        io_bind (\<lambda>w. (let (newsItems, w') = parseNews e url html w in (Inr newsItems, w')))
          (\<lambda>newsItems.
        io_bind (if length newsItems > 0
                 then io_bind (saveToMarkdown e (Some newsItems) filename) (\<lambda>_. io_return ())
                 else io_return ()) (\<lambda>_.
        io_return newsItems)))))
       (\<lambda>error. io_return [])"

subsection \<open>main\<close>


text \<open>
  \<^verbatim>\<open>sleepTime = 3000 + Math.random() * 5000\<close> and the awaited \<^verbatim>\<open>setTimeout\<close>. The
  arithmetic of the source is in double precision; here it is exact.
\<close>

definition sleep_between :: "env \<Rightarrow> world \<Rightarrow> world" where
  "sleep_between e w =
     (let sleepTime = 3000 + math_random e (random_draws w) * 5000
      in record_call (SetTimeout sleepTime) (w\<lparr>random_draws := Suc (random_draws w)\<rparr>))"

text \<open>
  One turn of \<^verbatim>\<open>for (const site of newsSites)\<close>: the body is a \<^verbatim>\<open>try\<close> whose
  \<^verbatim>\<open>catch\<close> only logs. \<^verbatim>\<open>crawler.run()\<close> is called without arguments.
\<close>

definition crawl_site :: "env \<Rightarrow> news_item list \<times> world \<Rightarrow> jsstring \<Rightarrow> news_item list \<times> world" where
  "crawl_site e st site =
     (case run e site None None (snd st) of
        (Inl error, w') \<Rightarrow> (fst st, w')
      | (Inr news, w') \<Rightarrow> (fst st @ news, sleep_between e w'))"

text \<open>The body of \<^verbatim>\<open>main\<close> for a list of sites; \<^verbatim>\<open>main\<close> itself runs it on \<open>newsSites\<close>.\<close>

definition main_on :: "env \<Rightarrow> jsstring list \<Rightarrow> unit io" where
  "main_on e sites =
     io_bind (\<lambda>w. (let (allNews, w') = foldl (crawl_site e) ([], w) sites in (Inr allNews, w')))
       (\<lambda>allNews.
     if length allNews > 0 then
       io_bind (io_new_Date e) (\<lambda>now.
       io_bind (saveToMarkdown e (Some allNews) (Some (dated_md_name now))) (\<lambda>_.
       io_bind (commitToGitHub e (dated_md_name now)) (\<lambda>_.
       io_return ())))
     else io_return ())"


subsection \<open>Observations on a run\<close>

text \<open>The calls a computation adds to the trace of the world it starts in.\<close>

definition calls_made :: "'a io \<Rightarrow> world \<Rightarrow> event list" where
  "calls_made m w = drop (length (trace w)) (trace (snd (m w)))"

fun is_SetTimeout :: "event \<Rightarrow> bool" where
  "is_SetTimeout (SetTimeout t) = True"
| "is_SetTimeout ev = False"

fun is_git_write :: "event \<Rightarrow> bool" where
  "is_git_write (GitAdd p) = True"
| "is_git_write (GitCommit m) = True"
| "is_git_write (GitPush r b) = True"
| "is_git_write ev = False"

text \<open>The delays of the \<^verbatim>\<open>setTimeout\<close> calls and the paths of the file writes, in order.\<close>

fun timeouts :: "event list \<Rightarrow> rat list" where
  "timeouts [] = []"
| "timeouts (SetTimeout t # evs) = t # timeouts evs"
| "timeouts (ev # evs) = timeouts evs"


text \<open>
  A computation that draws no random number and only adds calls to the trace, none of
  them a \<^verbatim>\<open>setTimeout\<close>.
\<close>

definition no_timeout :: "'a io \<Rightarrow> bool" where
  "no_timeout m \<longleftrightarrow>
     (\<forall>w. random_draws (snd (m w)) = random_draws w \<and>
          (\<exists>evs. trace (snd (m w)) = trace w @ evs \<and> timeouts evs = []))"

subsection \<open>Reference definitions for the stated properties\<close>


text \<open>
  The escaping of a free-text CSV field as one pass over the text: a double quote is
  doubled, an ASCII comma becomes the full-width comma, any other code unit stays.
\<close>

definition csv_escaped :: "jsstring \<Rightarrow> jsstring" where
  "csv_escaped x =
     concat (map (\<lambda>c. if c = 0x22 then [0x22, 0x22] else if c = 0x2C then [0xFF0C] else [c]) x)"

definition double_quoted :: "jsstring \<Rightarrow> jsstring" where
  "double_quoted x = [0x22] @ x @ [0x22]"

subsection \<open>A sample environment\<close>

text \<open>
  A page of \<^verbatim>\<open>https://news.sina.com.cn/\<close> with three cards, the first and the third with
  the same title, and one anchor. The sample \<open>url_href\<close> resolves a link that begins with
  a slash against a base that is the root of a site.
\<close>

definition sample_page :: page where
  "sample_page =
     \<lparr>sina_cards =
        [\<lparr>heading_text = ascii ''  Flood warning issued '', first_anchor_text = ascii ''more'',
          card_href = Some (ascii ''/a/1.html'')\<rparr>,
         \<lparr>heading_text = [], first_anchor_text = ascii ''Markets rally'',
          card_href = Some (ascii ''https://finance.sina.com.cn/b/2.html'')\<rparr>,
         \<lparr>heading_text = ascii ''Flood warning issued'', first_anchor_text = [],
          card_href = Some (ascii ''/a/3.html'')\<rparr>],
      sina_hot = [],
      netease_rows = [],
      anchors = [\<lparr>href = Some (ascii ''/about''), anchor_text = ascii ''About this website''\<rparr>]\<rparr>"

definition sample_date :: "nat \<Rightarrow> date" where
  "sample_date k =
     \<lparr>toISOString = ascii ''2024-05-06T00:00:0'' @ String_of_nat (k mod 10) @ ascii ''.000Z'',
      getFullYear = 2024, getMonth = 4, getDate = 6,
      toLocaleDateString_zh = ascii ''2024/5/6'',
      toLocaleString_zh = ascii ''2024/5/6 08:00:0'' @ String_of_nat (k mod 10)\<rparr>"

definition sample_env :: env where
  "sample_env =
     \<lparr>axios_get = (\<lambda>u. Inr (ascii ''<html></html>'')),
      cheerio_load = (\<lambda>h. Inr sample_page),
      url_href = (\<lambda>l b. if l = [] then Inl TypeError else Inr (butlast b @ l)),
      url_hostname = (\<lambda>u. Inr (takeWhile (\<lambda>c. c \<noteq> 0x2F) (drop 8 u))),
      date_now = sample_date,
      math_random = (\<lambda>k. 1 / 2),
      write_error = (\<lambda>p. None),
      git_status = (\<lambda>fs. Inr \<lparr>modified = [],
                                not_added = filter (\<lambda>p. fs p \<noteq> None) [ascii ''20240506.md'']\<rparr>),
      git_add = (\<lambda>p. None),
      git_commit = (\<lambda>m. None),
      git_push = (\<lambda>r b. None)\<rparr>"

definition sample_world :: world where
  "sample_world = \<lparr>files = (\<lambda>p. None), trace = [], clock_reads = 0, random_draws = 0\<rparr>"

definition sina_url :: jsstring where
  "sina_url = ascii ''https://news.sina.com.cn/''"

definition qq_url :: jsstring where
  "qq_url = ascii ''https://news.qq.com/''"

section \<open>Properties\<close>

subsection \<open>The Map of the deduplication\<close>


lemma keys_Map_set:
  "map fst (Map_set m k v) = (if k \<in> set (map fst m) then map fst m else map fst m @ [k])"
  by (induction m) force+

lemma distinct_Map_set: "distinct (map fst m) \<Longrightarrow> distinct (map fst (Map_set m k v))"
  by (simp add: keys_Map_set)

lemma map_of_Map_set: "map_of (Map_set m k v) = (map_of m)(k \<mapsto> v)"
  by (induction m) auto


lemma distinct_foldl_Map_set:
  "distinct (map fst m) \<Longrightarrow> distinct (map fst (foldl Map_step m es))"
  by (induction es arbitrary: m) (auto simp: distinct_Map_set)

lemma map_of_foldl_Map_set:
  "map_of (foldl Map_step m es) k =
     (if filter (\<lambda>p. fst p = k) es = [] then map_of m k
      else Some (snd (last (filter (\<lambda>p. fst p = k) es))))"
proof (induction es arbitrary: m)
  case Nil
  then show ?case by simp
next
  case (Cons p es)
  obtain k' v where p: "p = (k', v)" by (cases p)
  show ?case
    using Cons.IH [of "Map_set m k' v"]
    by (auto simp: p map_of_Map_set)
qed

lemma uniqueNews_entry:
  assumes "(k, r) \<in> set (new_Map (map (\<lambda>item. (title item, item)) newsItems))"
  shows "title r = k \<and> r \<in> set newsItems \<and> r = last (filter (\<lambda>x. title x = k) newsItems)"
proof -
  let ?es = "map (\<lambda>item. (title item, item)) newsItems"
  let ?xs = "filter (\<lambda>x. title x = k) newsItems"
  have "distinct (map fst (foldl Map_step [] ?es))"
    by (rule distinct_foldl_Map_set) simp
  with assms have look: "map_of (foldl Map_step [] ?es) k = Some r"
    by (simp add: new_Map_def)
  have flt: "filter (\<lambda>p. fst p = k) ?es = map (\<lambda>item. (title item, item)) ?xs"
    by (induction newsItems) auto
  have ne: "?xs \<noteq> []"
    using look by (auto simp: map_of_foldl_Map_set flt)
  then have "map_of (foldl Map_step [] ?es) k = Some (last ?xs)"
    by (simp add: map_of_foldl_Map_set flt last_map)
  with look have r: "r = last ?xs" by simp
  from ne have "last ?xs \<in> set ?xs" by (rule last_in_set)
  then have "title (last ?xs) = k \<and> last ?xs \<in> set newsItems" by simp
  with r show ?thesis by simp
qed






lemma uniqueNews_subset: "r \<in> set (uniqueNews newsItems) \<Longrightarrow> r \<in> set newsItems"
  by (auto simp: uniqueNews_def Map_values_def dest: uniqueNews_entry)







subsection \<open>Saving nothing\<close>

text \<open>
  C8. For an absent or an empty list \<^verbatim>\<open>saveToMarkdown\<close> and \<^verbatim>\<open>saveToCsv\<close> return
  \<^verbatim>\<open>false\<close> and leave the world as it is: no call of \<^verbatim>\<open>writeFileSync\<close> is made and no
  file is created or changed, whatever the file name.
\<close>

theorem save_empty_writes_nothing:
  "saveToMarkdown e None filename w = (Inr False, w) \<and>
   saveToMarkdown e (Some []) filename w = (Inr False, w) \<and>
   saveToCsv e None filename w = (Inr False, w) \<and>
   saveToCsv e (Some []) filename w = (Inr False, w)"
  by (simp add: saveToMarkdown_def saveToCsv_def io_return_def)

theorem save_empty_writes_nothing_witness:
  "fst (saveToMarkdown sample_env (Some []) (Some (ascii ''digest.md''))
          (sample_world\<lparr>files := [ascii ''digest.md'' \<mapsto> ascii ''old'']\<rparr>)) = Inr False \<and>
   files (snd (saveToMarkdown sample_env (Some []) (Some (ascii ''digest.md''))
          (sample_world\<lparr>files := [ascii ''digest.md'' \<mapsto> ascii ''old'']\<rparr>)))
     (ascii ''digest.md'') = Some (ascii ''old'') \<and>
   calls_made (saveToCsv sample_env None None) sample_world = [] \<and>
   files (snd (saveToCsv sample_env None None sample_world)) (ascii ''news_20240506.csv'') = None"
  using save_empty_writes_nothing [of sample_env "Some (ascii ''digest.md'')"
      "sample_world\<lparr>files := [ascii ''digest.md'' \<mapsto> ascii ''old'']\<rparr>"]
    save_empty_writes_nothing [of sample_env None sample_world]
  by (simp add: calls_made_def sample_world_def)

subsection \<open>commitToGitHub\<close>

lemma commitToGitHub_unchanged:
  assumes "git_status e (files w) = Inr st"
    and "filePath \<notin> set (modified st)" and "filePath \<notin> set (not_added st)"
  shows "commitToGitHub e filePath w = (Inr False, record_call GitStatus w)"
  using assms by (simp add: commitToGitHub_def io_catch_def io_bind_def io_return_def)

lemma commitToGitHub_returns: "\<exists>b. fst (commitToGitHub e filePath w) = Inr b"
  by (auto simp: commitToGitHub_def io_catch_def io_bind_def io_return_def git_call_def
      io_new_Date_def new_Date_def split: sum.splits option.splits prod.splits)

text \<open>
  C9. When \<^verbatim>\<open>git.status()\<close> lists the path neither as modified nor as not added,
  \<^verbatim>\<open>commitToGitHub\<close> returns \<^verbatim>\<open>false\<close> and has made the status call only: no add, no
  commit, no push. For every input it returns a boolean; no exception leaves it.
\<close>

theorem commitToGitHub_nothing_to_commit:
  "(\<forall>st. git_status e (files w) = Inr st \<longrightarrow>
      filePath \<notin> set (modified st) \<longrightarrow> filePath \<notin> set (not_added st) \<longrightarrow>
      commitToGitHub e filePath w = (Inr False, record_call GitStatus w) \<and>
      filter is_git_write (calls_made (commitToGitHub e filePath) w) = []) \<and>
   (\<exists>b. fst (commitToGitHub e filePath w) = Inr b)"
  using commitToGitHub_returns
  by (auto simp: commitToGitHub_unchanged calls_made_def record_call_def)

theorem commitToGitHub_nothing_to_commit_witness:
  "git_status sample_env (files sample_world) = Inr \<lparr>modified = [], not_added = []\<rparr> \<and>
   commitToGitHub sample_env (ascii ''20240506.md'') sample_world =
     (Inr False, record_call GitStatus sample_world)"
proof -
  have h: "git_status sample_env (files sample_world) = Inr \<lparr>modified = [], not_added = []\<rparr>"
    by (simp add: sample_env_def sample_world_def)
  with commitToGitHub_nothing_to_commit [of sample_env sample_world "ascii ''20240506.md''"]
  show ?thesis by simp
qed

subsection \<open>CSV fields\<close>

lemma replace_all_Nil: "replace_all c r [] = []"
  by (simp add: replace_all_def)

lemma replace_all_Cons: "replace_all c r (x # xs) = (if x = c then r else [x]) @ replace_all c r xs"
  by (simp add: replace_all_def)

lemma replace_all_append: "replace_all c r (xs @ ys) = replace_all c r xs @ replace_all c r ys"
  by (simp add: replace_all_def)

lemma csv_text_escaped: "csv_text x = csv_escaped x"
proof (induction x)
  case Nil
  show ?case by (simp add: csv_text_def csv_escaped_def replace_all_Nil)
next
  case (Cons c x)
  have "csv_text (c # x) =
      replace_all 0x2C [0xFF0C] (if c = 0x22 then [0x22, 0x22] else [c]) @ csv_text x"
    by (simp add: csv_text_def replace_all_Cons replace_all_append)
  also have "replace_all 0x2C [0xFF0C] (if c = 0x22 then [0x22, 0x22] else [c]) =
      (if c = 0x22 then [0x22, 0x22] else if c = 0x2C then [0xFF0C] else [c])"
    by (simp add: replace_all_Cons replace_all_Nil)
  finally show ?case by (simp add: Cons.IH csv_escaped_def)
qed

lemma csv_line_shape:
  "csv_line item =
     double_quoted (csv_escaped (title item)) @ [0x2C] @ double_quoted (link item) @ [0x2C] @
     double_quoted (csv_escaped (summary item)) @ [0x2C] @ double_quoted (crawl_time item) @
     [0x2C] @ double_quoted (source item) @ [0xA]"
  by (simp add: csv_line_def double_quoted_def csv_text_escaped)

lemma csv_example:
  \<open>double_quoted (csv_escaped (ascii ''He said "hi", ok'')) =
     ascii ''"He said ""hi""'' @ [0xFF0C] @ ascii '' ok"''\<close>
  by (simp add: double_quoted_def csv_escaped_def ascii_def)

lemma saveToCsv_calls:
  assumes "items \<noteq> []" and "f \<noteq> []"
  shows "calls_made (saveToCsv e (Some items) (Some f)) w =
           [WriteFile f (csv_header @ concat (map csv_line items))]"
  using assms
  by (simp add: saveToCsv_def csv_filename_def calls_made_def io_catch_def io_bind_def
      io_return_def writeFileSync_def record_call_def Let_def split: option.splits)

text \<open>
  The field that C6 gives for the title \<^verbatim>\<open>He said "hi", ok\<close> has no space after the
  full-width comma. The title has one, and the replacement keeps it: the field written
  is one code unit longer than the stated one, and its first 19 code units differ from it.
\<close>

theorem csv_example_counterexample:
  \<open>take 20 (csv_line \<lparr>title = ascii ''He said "hi", ok'', link = ascii ''http://x/'',
       summary = [], crawl_time = ascii ''t'', source = ascii ''s''\<rparr>) =
     ascii ''"He said ""hi""'' @ [0xFF0C] @ ascii '' ok"'' \<and>
   take 19 (csv_line \<lparr>title = ascii ''He said "hi", ok'', link = ascii ''http://x/'',
       summary = [], crawl_time = ascii ''t'', source = ascii ''s''\<rparr>) \<noteq>
     ascii ''"He said ""hi""'' @ [0xFF0C] @ ascii ''ok"''\<close>
  by (simp add: csv_line_shape double_quoted_def csv_escaped_def ascii_def)

text \<open>
  C6, amended. A line of the CSV file is the five fields, each between double quotes,
  separated by commas and ended by a line feed; in the title and in the summary every
  double quote is doubled and every ASCII comma is the full-width comma, while link, crawl
  time and source stand as they are. For the title \<^verbatim>\<open>He said "hi", ok\<close> the first field
  is \<^verbatim>\<open>"He said ""hi""\<close>, the full-width comma, \<^verbatim>\<open> ok"\<close>, with the space of the title.
  \<^verbatim>\<open>saveToCsv\<close> writes the header and these lines.
\<close>

theorem csv_fields_escaped:
  \<open>csv_line item =
     double_quoted (csv_escaped (title item)) @ [0x2C] @ double_quoted (link item) @ [0x2C] @
     double_quoted (csv_escaped (summary item)) @ [0x2C] @ double_quoted (crawl_time item) @
     [0x2C] @ double_quoted (source item) @ [0xA] \<and>
   (title item = ascii ''He said "hi", ok'' \<longrightarrow>
      take 20 (csv_line item) = ascii ''"He said ""hi""'' @ [0xFF0C] @ ascii '' ok"'') \<and>
   (items \<noteq> [] \<and> f \<noteq> [] \<longrightarrow>
      calls_made (saveToCsv e (Some items) (Some f)) w =
        [WriteFile f (csv_header @ concat (map csv_line items))])\<close>
proof -
  have \<open>take 20 (csv_line item) = ascii ''"He said ""hi""'' @ [0xFF0C] @ ascii '' ok"''\<close>
    if \<open>title item = ascii ''He said "hi", ok''\<close>
    using that csv_example by (simp add: csv_line_shape ascii_def)
  then show ?thesis
    using csv_line_shape saveToCsv_calls by blast
qed

theorem csv_fields_escaped_witness:
  \<open>take 20 (csv_line \<lparr>title = ascii ''He said "hi", ok'', link = ascii ''http://x/'',
       summary = [], crawl_time = ascii ''t'', source = ascii ''s''\<rparr>) =
     ascii ''"He said ""hi""'' @ [0xFF0C] @ ascii '' ok"'' \<and>
   calls_made (saveToCsv sample_env
       (Some [\<lparr>title = ascii ''a,b'', link = ascii ''http://x/'',
               summary = ascii ''c'', crawl_time = ascii ''t'', source = ascii ''s''\<rparr>])
       (Some (ascii ''out.csv''))) sample_world =
     [WriteFile (ascii ''out.csv'')
        (csv_header @ ascii ''"a'' @ [0xFF0C] @ ascii ''b","http://x/","c","t","s"'' @ [0xA])]\<close>
proof -
  let ?item = \<open>\<lparr>title = ascii ''He said "hi", ok'', link = ascii ''http://x/'',
       summary = [], crawl_time = ascii ''t'', source = ascii ''s''\<rparr>\<close>
  let ?it2 = \<open>\<lparr>title = ascii ''a,b'', link = ascii ''http://x/'',
               summary = ascii ''c'', crawl_time = ascii ''t'', source = ascii ''s''\<rparr>\<close>
  note T = csv_fields_escaped [of ?item "[?it2]" "ascii ''out.csv''" sample_env sample_world]
  have l2: \<open>csv_line ?it2 = ascii ''"a'' @ [0xFF0C] @ ascii ''b","http://x/","c","t","s"'' @ [0xA]\<close>
    using csv_fields_escaped [of ?it2 "[]" "[]" sample_env sample_world]
    by (simp add: double_quoted_def csv_escaped_def ascii_def)
  have ne: "[?it2] \<noteq> [] \<and> ascii ''out.csv'' \<noteq> []" by (simp add: ascii_def)
  have t: \<open>title ?item = ascii ''He said "hi", ok''\<close> by simp
  from T t have a: \<open>take 20 (csv_line ?item) = ascii ''"He said ""hi""'' @ [0xFF0C] @ ascii '' ok"''\<close>
    by blast
  from T ne have "calls_made (saveToCsv sample_env (Some [?it2]) (Some (ascii ''out.csv''))) sample_world =
        [WriteFile (ascii ''out.csv'') (csv_header @ concat (map csv_line [?it2]))]"
    by blast
  with a l2 show ?thesis by simp
qed

subsection \<open>The filter of the generic pass\<close>

lemma anchor_each_rejected:
  "\<not> anchor_filter (trim t) (Some h) \<Longrightarrow>
     anchor_each e url st \<lparr>href = Some h, anchor_text = t\<rparr> = st"
  by (simp add: anchor_each_def)

lemma anchor_each_accepted:
  assumes "anchor_filter (trim t) (Some h)"
    and "fullLink e url h = Inr fl" and "url_hostname e url = Inr host"
  shows "fst (anchor_each e url st \<lparr>href = Some h, anchor_text = t\<rparr>) =
           fst st @ [\<lparr>title = trim t, link = fl, summary = summary_generic,
                      crawl_time = toISOString (date_now e (clock_reads (snd st))),
                      source = host\<rparr>]"
  using assms by (simp add: anchor_each_def new_Date_def)

lemma anchor_filter_length:
  assumes "h \<noteq> []" and "\<not> scheme_regex_test h"
  shows "anchor_filter text (Some h) \<longleftrightarrow> 10 < length text \<and> length text < 100"
  using assms by (auto simp: anchor_filter_def)








text \<open>
  C7. For an anchor whose href passes the href conditions (present, not empty, no match of
  the scheme expression): with a trimmed text of exactly 10 or exactly 100 code units the
  callback pushes nothing; the filter holds exactly when the length is greater than 10 and
  less than 100; with a length of 11 or 99 the filter holds, and the record with the
  trimmed text as title is pushed once the link and the host name of the page resolve.
\<close>

theorem anchor_text_length_bounds:
  assumes "h \<noteq> []" and "\<not> scheme_regex_test h"
  shows "(length (trim t) = 10 \<or> length (trim t) = 100 \<longrightarrow>
            anchor_each e url st \<lparr>href = Some h, anchor_text = t\<rparr> = st) \<and>
         (anchor_filter (trim t) (Some h) \<longleftrightarrow> 10 < length (trim t) \<and> length (trim t) < 100) \<and>
         (length (trim t) = 11 \<or> length (trim t) = 99 \<longrightarrow>
            anchor_filter (trim t) (Some h) \<and>
            (\<forall>fl host. fullLink e url h = Inr fl \<longrightarrow> url_hostname e url = Inr host \<longrightarrow>
               fst (anchor_each e url st \<lparr>href = Some h, anchor_text = t\<rparr>) =
                 fst st @ [\<lparr>title = trim t, link = fl, summary = summary_generic,
                            crawl_time = toISOString (date_now e (clock_reads (snd st))),
                            source = host\<rparr>]))"
proof -
  note len = anchor_filter_length [OF assms, of "trim t"]
  have out: "anchor_each e url st \<lparr>href = Some h, anchor_text = t\<rparr> = st"
    if "length (trim t) = 10 \<or> length (trim t) = 100"
    using that len by (intro anchor_each_rejected) auto
  have inn: "anchor_filter (trim t) (Some h)"
    if "length (trim t) = 11 \<or> length (trim t) = 99"
    using that len by auto
  from out inn len anchor_each_accepted show ?thesis by blast
qed


lemma trim_replicate_a: "trim (replicate n 0x61) = replicate n 0x61"
  by (simp add: trim_def is_white_space_def)

theorem anchor_text_length_bounds_witness:
  "ascii ''/about'' \<noteq> [] \<and> \<not> scheme_regex_test (ascii ''/about'') \<and>
   anchor_each sample_env qq_url ([], sample_world)
     \<lparr>href = Some (ascii ''/about''), anchor_text = ascii '' abcdefghij ''\<rparr> = ([], sample_world) \<and>
   anchor_each sample_env qq_url ([], sample_world)
     \<lparr>href = Some (ascii ''/about''), anchor_text = replicate 100 0x61\<rparr> = ([], sample_world) \<and>
   map title (fst (anchor_each sample_env qq_url ([], sample_world)
     \<lparr>href = Some (ascii ''/about''), anchor_text = ascii '' abcdefghijk ''\<rparr>)) =
     [ascii ''abcdefghijk''] \<and>
   map title (fst (anchor_each sample_env qq_url ([], sample_world)
     \<lparr>href = Some (ascii ''/about''), anchor_text = replicate 99 0x61\<rparr>)) =
     [replicate 99 0x61]"
proof -
  have h1: "ascii ''/about'' \<noteq> []" and h2: "\<not> scheme_regex_test (ascii ''/about'')"
    by (simp_all add: scheme_regex_test_def startsWith_def ascii_def)
  have l10: "length (trim (ascii '' abcdefghij '')) = 10"
    and l11: "length (trim (ascii '' abcdefghijk '')) = 11"
    and t11: "trim (ascii '' abcdefghijk '') = ascii ''abcdefghijk''"
    by (simp_all add: trim_def is_white_space_def ascii_def)
  have l100: "length (trim (replicate 100 0x61)) = 100"
    and l99: "length (trim (replicate 99 0x61)) = 99"
    by (simp_all add: trim_replicate_a)
  have fl: "fullLink sample_env qq_url (ascii ''/about'') = Inr (ascii ''https://news.qq.com/about'')"
    by (simp add: fullLink_def sample_env_def qq_url_def startsWith_def ascii_def)
  have host: "url_hostname sample_env qq_url = Inr (ascii ''news.qq.com'')"
    by (simp add: sample_env_def qq_url_def ascii_def)
  note T = anchor_text_length_bounds [OF h1 h2, of _ sample_env qq_url "([], sample_world)"]
  from T [of "ascii '' abcdefghij ''"] l10
  have a: "anchor_each sample_env qq_url ([], sample_world)
     \<lparr>href = Some (ascii ''/about''), anchor_text = ascii '' abcdefghij ''\<rparr> = ([], sample_world)"
    by blast
  from T [of "replicate 100 0x61"] l100
  have b: "anchor_each sample_env qq_url ([], sample_world)
     \<lparr>href = Some (ascii ''/about''), anchor_text = replicate 100 0x61\<rparr> = ([], sample_world)"
    by blast
  from T [of "ascii '' abcdefghijk ''"] l11 fl host
  have "fst (anchor_each sample_env qq_url ([], sample_world)
     \<lparr>href = Some (ascii ''/about''), anchor_text = ascii '' abcdefghijk ''\<rparr>) =
     fst ([]::news_item list, sample_world) @
       [\<lparr>title = trim (ascii '' abcdefghijk ''), link = ascii ''https://news.qq.com/about'',
         summary = summary_generic,
         crawl_time = toISOString (date_now sample_env (clock_reads (snd ([]::news_item list, sample_world)))),
         source = ascii ''news.qq.com''\<rparr>]"
    by blast
  then have c: "map title (fst (anchor_each sample_env qq_url ([], sample_world)
     \<lparr>href = Some (ascii ''/about''), anchor_text = ascii '' abcdefghijk ''\<rparr>)) =
     [ascii ''abcdefghijk'']"
    by (simp add: t11)
  from T [of "replicate 99 0x61"] l99 fl host
  have "fst (anchor_each sample_env qq_url ([], sample_world)
     \<lparr>href = Some (ascii ''/about''), anchor_text = replicate 99 0x61\<rparr>) =
     fst ([]::news_item list, sample_world) @
       [\<lparr>title = trim (replicate 99 0x61), link = ascii ''https://news.qq.com/about'',
         summary = summary_generic,
         crawl_time = toISOString (date_now sample_env (clock_reads (snd ([]::news_item list, sample_world)))),
         source = ascii ''news.qq.com''\<rparr>]"
    by blast
  then have d: "map title (fst (anchor_each sample_env qq_url ([], sample_world)
     \<lparr>href = Some (ascii ''/about''), anchor_text = replicate 99 0x61\<rparr>)) =
     [replicate 99 0x61]"
    by (simp add: trim_replicate_a)
  from h1 h2 a b c d show ?thesis by blast
qed

subsection \<open>The generic pass as a fallback\<close>

lemma push_if_titled_summaries:
  assumes "\<forall>r \<in> set (fst st). summary r \<noteq> summary_generic" and "summ \<noteq> summary_generic"
  shows "\<forall>r \<in> set (fst (push_if_titled e url summ src t l st)). summary r \<noteq> summary_generic"
  using assms
  by (auto simp: push_if_titled_def new_Date_def split: option.splits sum.splits)

lemma summaries_distinct:
  "summary_hot \<noteq> summary_generic" "summary_weibo \<noteq> summary_generic"
  "summary_netease \<noteq> summary_generic"
  by (simp_all add: summary_hot_def summary_weibo_def summary_netease_def summary_generic_def)

lemma foldl_invariant:
  assumes "P st" and "\<And>st x. P st \<Longrightarrow> P (f st x)"
  shows "P (foldl f st xs)"
  using assms(1) by (induction xs arbitrary: st) (auto intro: assms(2))

lemma site_passes_summaries:
  assumes "\<forall>r \<in> set (fst st). summary r \<noteq> summary_generic"
  shows "\<forall>r \<in> set (fst (site_passes e url pg st)). summary r \<noteq> summary_generic"
proof -
  let ?P = "\<lambda>st :: news_item list \<times> world. \<forall>r \<in> set (fst st). summary r \<noteq> summary_generic"
  have card: "?P (sina_card_each e url st el)" if "?P st" for st el
    unfolding sina_card_each_def Let_def
    by (rule push_if_titled_summaries [OF that summaries_distinct(1)])
  have hot: "?P (sina_hot_each e url st el)" if "?P st" for st el
    unfolding sina_hot_each_def
    by (rule push_if_titled_summaries [OF that summaries_distinct(2)])
  have net: "?P (netease_each e url st el)" if "?P st" for st el
    unfolding netease_each_def
    by (rule push_if_titled_summaries [OF that summaries_distinct(3)])
  have 1: "?P (foldl (sina_card_each e url) st (sina_cards pg))"
    by (rule foldl_invariant [where P = ?P, OF assms card])
  have 2: "?P (foldl (sina_hot_each e url) (foldl (sina_card_each e url) st (sina_cards pg)) (sina_hot pg))"
    by (rule foldl_invariant [where P = ?P, OF 1 hot])
  have 3: "?P (foldl (netease_each e url) st (netease_rows pg))"
    by (rule foldl_invariant [where P = ?P, OF assms net])
  from 2 3 assms show ?thesis
    by (simp add: site_passes_def)
qed

lemma anchor_each_summaries:
  assumes "\<forall>r \<in> set (fst st). summary r = summary_generic"
  shows "\<forall>r \<in> set (fst (anchor_each e url st el)). summary r = summary_generic"
  using assms
  by (auto simp: anchor_each_def new_Date_def Let_def split: option.splits sum.splits)

lemma generic_pass_summaries:
  assumes "\<forall>r \<in> set (fst st). summary r = summary_generic"
  shows "\<forall>r \<in> set (fst (generic_pass e url pg st)). summary r = summary_generic"
  unfolding generic_pass_def
  by (rule foldl_invariant
      [where P = "\<lambda>st. \<forall>r \<in> set (fst st). summary r = summary_generic", OF assms])
    (rule anchor_each_summaries)

text \<open>
  C2. For every page and every URL, those that contain \<^verbatim>\<open>sina.com.cn\<close> or
  \<^verbatim>\<open>163.com\<close> among them: when the site-specific passes have pushed at least one record,
  \<^verbatim>\<open>parseNews\<close> returns the deduplication of these records alone, the generic pass has
  left no trace in the result or in the world, and no returned record has the summary of
  the generic pass; when they have pushed none, the result is the deduplication of what
  the generic pass pushes, and every returned record has its summary.
\<close>

theorem generic_pass_is_fallback:
  assumes "cheerio_load e html = Inr pg"
  shows "(fst (site_passes e url pg ([], w)) \<noteq> [] \<longrightarrow>
            parseNews e url html w =
              (uniqueNews (fst (site_passes e url pg ([], w))), snd (site_passes e url pg ([], w))) \<and>
            (\<forall>r \<in> set (fst (parseNews e url html w)). summary r \<noteq> summary_generic)) \<and>
         (fst (site_passes e url pg ([], w)) = [] \<longrightarrow>
            parseNews e url html w =
              (uniqueNews (fst (generic_pass e url pg (site_passes e url pg ([], w)))),
               snd (generic_pass e url pg (site_passes e url pg ([], w)))) \<and>
            (\<forall>r \<in> set (fst (parseNews e url html w)). summary r = summary_generic))"
proof (intro conjI impI)
  assume ne: "fst (site_passes e url pg ([], w)) \<noteq> []"
  then show eq: "parseNews e url html w =
      (uniqueNews (fst (site_passes e url pg ([], w))), snd (site_passes e url pg ([], w)))"
    using assms by (simp add: parseNews_def collect_def Let_def split: prod.splits)
  have "\<forall>r \<in> set (fst (site_passes e url pg ([], w))). summary r \<noteq> summary_generic"
    by (rule site_passes_summaries) simp
  then show "\<forall>r \<in> set (fst (parseNews e url html w)). summary r \<noteq> summary_generic"
    unfolding eq using uniqueNews_subset by auto
next
  assume em: "fst (site_passes e url pg ([], w)) = []"
  then show eq: "parseNews e url html w =
      (uniqueNews (fst (generic_pass e url pg (site_passes e url pg ([], w)))),
       snd (generic_pass e url pg (site_passes e url pg ([], w))))"
    using assms by (simp add: parseNews_def collect_def Let_def split: prod.splits)
  have "\<forall>r \<in> set (fst (generic_pass e url pg (site_passes e url pg ([], w)))).
      summary r = summary_generic"
    by (rule generic_pass_summaries) (simp add: em)
  then show "\<forall>r \<in> set (fst (parseNews e url html w)). summary r = summary_generic"
    unfolding eq using uniqueNews_subset by auto
qed

lemma sample_site_passes_nonempty:
  "fst (site_passes sample_env sina_url sample_page ([], sample_world)) \<noteq> []"
  by code_simp

lemma sample_parse_nonempty: "fst (parseNews sample_env sina_url [] sample_world) \<noteq> []"
  by code_simp

theorem generic_pass_is_fallback_witness:
  "cheerio_load sample_env [] = Inr sample_page \<and>
   str_includes sina_url (ascii ''sina.com.cn'') \<and>
   fst (site_passes sample_env sina_url sample_page ([], sample_world)) \<noteq> [] \<and>
   fst (parseNews sample_env sina_url [] sample_world) =
     uniqueNews (fst (site_passes sample_env sina_url sample_page ([], sample_world))) \<and>
   summary (hd (fst (parseNews sample_env sina_url [] sample_world))) \<noteq> summary_generic"
proof -
  have h: "cheerio_load sample_env [] = Inr sample_page"
    by (simp add: sample_env_def)
  have u: "str_includes sina_url (ascii ''sina.com.cn'')"
    by code_simp
  note T = generic_pass_is_fallback [OF h, of sina_url sample_world]
  from T sample_site_passes_nonempty
  have eq: "parseNews sample_env sina_url [] sample_world =
      (uniqueNews (fst (site_passes sample_env sina_url sample_page ([], sample_world))),
       snd (site_passes sample_env sina_url sample_page ([], sample_world)))"
    and all: "\<forall>r \<in> set (fst (parseNews sample_env sina_url [] sample_world)).
       summary r \<noteq> summary_generic"
    by blast+
  from sample_parse_nonempty
  have "hd (fst (parseNews sample_env sina_url [] sample_world)) \<in>
      set (fst (parseNews sample_env sina_url [] sample_world))"
    by simp
  with all have "summary (hd (fst (parseNews sample_env sina_url [] sample_world))) \<noteq> summary_generic"
    by blast
  with h u sample_site_passes_nonempty eq show ?thesis by simp
qed

subsection \<open>Traces\<close>

lemma timeouts_append: "timeouts (a @ b) = timeouts a @ timeouts b"
  by (induction a rule: timeouts.induct) simp_all

lemma no_timeoutI:
  assumes "\<And>w. random_draws (snd (m w)) = random_draws w"
    and "\<And>w. \<exists>evs. trace (snd (m w)) = trace w @ evs \<and> timeouts evs = []"
  shows "no_timeout m"
  using assms unfolding no_timeout_def by blast

lemma no_timeout_return: "no_timeout (io_return x)"
  by (simp add: no_timeout_def io_return_def)

lemma no_timeout_pure: "no_timeout (\<lambda>w. (r, w))"
  by (simp add: no_timeout_def)

lemma no_timeout_bind:
  assumes "no_timeout m" and "\<And>x. no_timeout (f x)"
  shows "no_timeout (io_bind m f)"
proof (rule no_timeoutI)
  fix w
  obtain r w1 where m: "m w = (r, w1)" by (cases "m w")
  from assms(1) m obtain evs where 1: "random_draws w1 = random_draws w"
    "trace w1 = trace w @ evs" "timeouts evs = []"
    unfolding no_timeout_def by (metis snd_conv)
  show "random_draws (snd (io_bind m f w)) = random_draws w"
  proof (cases r)
    case (Inl err)
    then show ?thesis using m 1 by (simp add: io_bind_def)
  next
    case (Inr x)
    from assms(2) [of x] have "random_draws (snd (f x w1)) = random_draws w1"
      unfolding no_timeout_def by blast
    then show ?thesis using m 1 Inr by (simp add: io_bind_def)
  qed
  show "\<exists>evs. trace (snd (io_bind m f w)) = trace w @ evs \<and> timeouts evs = []"
  proof (cases r)
    case (Inl err)
    then show ?thesis using m 1 by (simp add: io_bind_def)
  next
    case (Inr x)
    from assms(2) [of x] obtain evs' where "trace (snd (f x w1)) = trace w1 @ evs'" "timeouts evs' = []"
      unfolding no_timeout_def by blast
    then have "trace (snd (io_bind m f w)) = trace w @ (evs @ evs') \<and> timeouts (evs @ evs') = []"
      using m 1 Inr by (simp add: io_bind_def timeouts_append)
    then show ?thesis by blast
  qed
qed

lemma no_timeout_catch:
  assumes "no_timeout m" and "\<And>err. no_timeout (h err)"
  shows "no_timeout (io_catch m h)"
proof (rule no_timeoutI)
  fix w
  obtain r w1 where m: "m w = (r, w1)" by (cases "m w")
  from assms(1) m obtain evs where 1: "random_draws w1 = random_draws w"
    "trace w1 = trace w @ evs" "timeouts evs = []"
    unfolding no_timeout_def by (metis snd_conv)
  show "random_draws (snd (io_catch m h w)) = random_draws w"
  proof (cases r)
    case (Inr x)
    then show ?thesis using m 1 by (simp add: io_catch_def)
  next
    case (Inl err)
    from assms(2) [of err] have "random_draws (snd (h err w1)) = random_draws w1"
      unfolding no_timeout_def by blast
    then show ?thesis using m 1 Inl by (simp add: io_catch_def)
  qed
  show "\<exists>evs. trace (snd (io_catch m h w)) = trace w @ evs \<and> timeouts evs = []"
  proof (cases r)
    case (Inr x)
    then show ?thesis using m 1 by (simp add: io_catch_def)
  next
    case (Inl err)
    from assms(2) [of err] obtain evs' where "trace (snd (h err w1)) = trace w1 @ evs'" "timeouts evs' = []"
      unfolding no_timeout_def by blast
    then have "trace (snd (io_catch m h w)) = trace w @ (evs @ evs') \<and> timeouts (evs @ evs') = []"
      using m 1 Inl by (simp add: io_catch_def timeouts_append)
    then show ?thesis by blast
  qed
qed

lemma no_timeout_new_Date: "no_timeout (io_new_Date e)"
  by (simp add: no_timeout_def io_new_Date_def new_Date_def)

lemma no_timeout_writeFileSync: "no_timeout (writeFileSync e path content)"
  by (auto simp: no_timeout_def writeFileSync_def record_call_def Let_def split: option.splits)

lemma no_timeout_git_call: "timeouts [ev] = [] \<Longrightarrow> no_timeout (git_call ev outcome)"
  by (auto simp: no_timeout_def git_call_def record_call_def split: option.splits)

lemma no_timeout_if: "no_timeout a \<Longrightarrow> no_timeout b \<Longrightarrow> no_timeout (if c then a else b)"
  by simp

lemma no_timeout_status: "no_timeout (\<lambda>w. (r w, record_call GitStatus w))"
  by (simp add: no_timeout_def record_call_def)

lemmas no_timeout_intros = no_timeout_catch no_timeout_bind no_timeout_if no_timeout_return
  no_timeout_new_Date no_timeout_git_call no_timeout_status no_timeout_writeFileSync
  no_timeout_pure

lemma no_timeout_commitToGitHub: "no_timeout (commitToGitHub e filePath)"
  unfolding commitToGitHub_def by (intro no_timeout_intros) simp_all

lemma no_timeout_build_mdContent: "no_timeout (build_mdContent e items)"
  unfolding build_mdContent_def by (intro no_timeout_intros)

lemma no_timeout_md_filename: "no_timeout (md_filename e filename)"
  unfolding md_filename_def by (cases filename) (auto intro!: no_timeout_intros)

lemma no_timeout_saveToMarkdown: "no_timeout (saveToMarkdown e newsItems filename)"
  unfolding saveToMarkdown_def
  by (cases newsItems)
    (auto intro!: no_timeout_intros no_timeout_build_mdContent no_timeout_md_filename)

lemma parse_step_world:
  "trace (snd (push_if_titled e url summ src t l st)) = trace (snd st) \<and>
   random_draws (snd (push_if_titled e url summ src t l st)) = random_draws (snd st) \<and>
   files (snd (push_if_titled e url summ src t l st)) = files (snd st)"
  by (auto simp: push_if_titled_def new_Date_def split: option.splits sum.splits)

lemma anchor_each_world:
  "trace (snd (anchor_each e url st el)) = trace (snd st) \<and>
   random_draws (snd (anchor_each e url st el)) = random_draws (snd st) \<and>
   files (snd (anchor_each e url st el)) = files (snd st)"
  by (auto simp: anchor_each_def new_Date_def Let_def split: option.splits sum.splits)

lemma collect_world:
  "trace (snd (collect e url pg w)) = trace w \<and>
   random_draws (snd (collect e url pg w)) = random_draws w \<and>
   files (snd (collect e url pg w)) = files w"
proof -
  let ?P = "\<lambda>st :: news_item list \<times> world.
     trace (snd st) = trace w \<and> random_draws (snd st) = random_draws w \<and> files (snd st) = files w"
  have card: "?P (sina_card_each e url st el)" if "?P st" for st el
    using that parse_step_world unfolding sina_card_each_def Let_def by simp
  have hot: "?P (sina_hot_each e url st el)" if "?P st" for st el
    using that parse_step_world unfolding sina_hot_each_def by simp
  have net: "?P (netease_each e url st el)" if "?P st" for st el
    using that parse_step_world unfolding netease_each_def by simp
  have anc: "?P (anchor_each e url st el)" if "?P st" for st el
    using that anchor_each_world by simp
  have 0: "?P ([], w)" by simp
  have 1: "?P (foldl (sina_card_each e url) ([], w) (sina_cards pg))"
    by (rule foldl_invariant [where P = ?P, OF 0 card])
  have 2: "?P (foldl (sina_hot_each e url) (foldl (sina_card_each e url) ([], w) (sina_cards pg)) (sina_hot pg))"
    by (rule foldl_invariant [where P = ?P, OF 1 hot])
  have 3: "?P (foldl (netease_each e url) ([], w) (netease_rows pg))"
    by (rule foldl_invariant [where P = ?P, OF 0 net])
  from 0 2 3 have s: "?P (site_passes e url pg ([], w))"
    by (simp add: site_passes_def)
  have "?P (generic_pass e url pg (site_passes e url pg ([], w)))"
    unfolding generic_pass_def by (rule foldl_invariant [where P = ?P, OF s anc])
  with s show ?thesis by (simp add: collect_def Let_def)
qed

lemma parseNews_world:
  "trace (snd (parseNews e url html w)) = trace w \<and>
   random_draws (snd (parseNews e url html w)) = random_draws w \<and>
   files (snd (parseNews e url html w)) = files w"
proof (cases "cheerio_load e html")
  case (Inl err)
  then show ?thesis by (simp add: parseNews_def)
next
  case (Inr pg)
  then have "snd (parseNews e url html w) = snd (collect e url pg w)"
    by (simp add: parseNews_def split: prod.splits)
  then show ?thesis using collect_world [of e url pg w] by simp
qed

lemma no_timeout_parseNews:
  "no_timeout (\<lambda>w. (let (newsItems, w') = parseNews e url html w in (Inr newsItems, w')))"
  unfolding no_timeout_def
  using parseNews_world [of e url html]
  by (simp add: case_prod_unfold Let_def)

lemma no_timeout_fetchPage: "no_timeout (fetchPage e url)"
  unfolding fetchPage_def
  by (intro no_timeout_intros) (simp_all add: no_timeout_def record_call_def)

lemma no_timeout_run: "no_timeout (run e url filename debug)"
  unfolding run_def
  by (intro no_timeout_intros no_timeout_fetchPage no_timeout_parseNews no_timeout_saveToMarkdown)

lemma run_returns: "\<exists>news. fst (run e url filename debug w) = Inr news"
  by (auto simp: run_def io_catch_def io_return_def split: prod.splits sum.splits)


lemma calls_madeI: "trace (snd (m w)) = trace w @ evs \<Longrightarrow> calls_made m w = evs"
  by (simp add: calls_made_def)

lemma crawl_site_turn:
  "random_draws (snd (crawl_site e st site)) = Suc (random_draws (snd st)) \<and>
   (\<exists>evs. trace (snd (crawl_site e st site)) =
            trace (snd st) @ evs @ [SetTimeout (3000 + math_random e (random_draws (snd st)) * 5000)] \<and>
          timeouts evs = [])"
proof -
  obtain r w' where r: "run e site None None (snd st) = (r, w')"
    by (cases "run e site None None (snd st)")
  from run_returns [of e site None None "snd st"] r obtain news where n: "r = Inr news"
    by auto
  from no_timeout_run [of e site None None] r obtain evs
    where w': "random_draws w' = random_draws (snd st)" "trace w' = trace (snd st) @ evs"
      "timeouts evs = []"
    unfolding no_timeout_def by (metis snd_conv)
  have "crawl_site e st site = (fst st @ news, sleep_between e w')"
    using r n by (simp add: crawl_site_def)
  then show ?thesis
    using w' by (simp add: sleep_between_def record_call_def Let_def)
qed

lemma crawl_loop_timeouts:
  "random_draws (snd (foldl (crawl_site e) st sites)) = random_draws (snd st) + length sites \<and>
   (\<exists>evs. trace (snd (foldl (crawl_site e) st sites)) = trace (snd st) @ evs \<and>
          timeouts evs = map (\<lambda>k. 3000 + math_random e k * 5000)
            [random_draws (snd st) ..< random_draws (snd st) + length sites])"
proof (induction sites arbitrary: st)
  case Nil
  show ?case by simp
next
  case (Cons site sites)
  let ?st = "crawl_site e st site"
  from crawl_site_turn [of e st site] obtain evs
    where 1: "random_draws (snd ?st) = Suc (random_draws (snd st))"
      "trace (snd ?st) =
         trace (snd st) @ evs @ [SetTimeout (3000 + math_random e (random_draws (snd st)) * 5000)]"
      "timeouts evs = []"
    by blast
  from Cons.IH [of ?st] obtain evs'
    where 2: "random_draws (snd (foldl (crawl_site e) ?st sites)) = random_draws (snd ?st) + length sites"
      "trace (snd (foldl (crawl_site e) ?st sites)) = trace (snd ?st) @ evs'"
      "timeouts evs' = map (\<lambda>k. 3000 + math_random e k * 5000)
         [random_draws (snd ?st) ..< random_draws (snd ?st) + length sites]"
    by blast
  have "trace (snd (foldl (crawl_site e) st (site # sites))) =
      trace (snd st) @ (evs @ [SetTimeout (3000 + math_random e (random_draws (snd st)) * 5000)] @ evs')"
    using 1 2 by simp
  moreover have "timeouts (evs @ [SetTimeout (3000 + math_random e (random_draws (snd st)) * 5000)] @ evs') =
      map (\<lambda>k. 3000 + math_random e k * 5000)
        [random_draws (snd st) ..< random_draws (snd st) + length (site # sites)]"
  proof -
    have u: "[random_draws (snd st) ..< random_draws (snd st) + length (site # sites)] =
        random_draws (snd st) # [Suc (random_draws (snd st)) ..< Suc (random_draws (snd st)) + length sites]"
      by (simp add: upt_conv_Cons del: upt_Suc)
    show ?thesis
      unfolding u using 1 2 by (simp add: timeouts_append del: upt_Suc)
  qed
  moreover have "random_draws (snd (foldl (crawl_site e) st (site # sites))) =
      random_draws (snd st) + length (site # sites)"
    using 1 2 by simp
  ultimately show ?case by blast
qed

lemma no_timeout_after_loop:
  "no_timeout (if length allNews > 0 then
       io_bind (io_new_Date e) (\<lambda>now.
       io_bind (saveToMarkdown e (Some allNews) (Some (dated_md_name now))) (\<lambda>_.
       io_bind (commitToGitHub e (dated_md_name now)) (\<lambda>_.
       io_return ())))
     else io_return ())"
  by (intro no_timeout_intros no_timeout_saveToMarkdown no_timeout_commitToGitHub)





subsection \<open>The debug file\<close>

lemma no_timeout_after_fetch:
  "no_timeout
     (io_bind (\<lambda>w. (let (newsItems, w') = parseNews e url html w in (Inr newsItems, w')))
        (\<lambda>newsItems.
      io_bind (if length newsItems > 0
               then io_bind (saveToMarkdown e (Some newsItems) filename) (\<lambda>_. io_return ())
               else io_return ()) (\<lambda>_.
      io_return newsItems)))"
  by (intro no_timeout_intros no_timeout_parseNews no_timeout_saveToMarkdown)

lemma run_calls_after_fetch:
  assumes "axios_get e url = Inr html"
  shows "\<exists>rest. calls_made (run e url filename None) w =
           HttpGet url # WriteFile debug_html_path html # rest"
proof -
  let ?R = "io_bind (\<lambda>w. (let (newsItems, w') = parseNews e url html w in (Inr newsItems, w')))
        (\<lambda>newsItems.
      io_bind (if length newsItems > 0
               then io_bind (saveToMarkdown e (Some newsItems) filename) (\<lambda>_. io_return ())
               else io_return ()) (\<lambda>_.
      io_return newsItems))"
  let ?w1 = "record_call (HttpGet url) w"
  have f: "fetchPage e url w = (Inr html, ?w1)"
    using assms by (simp add: fetchPage_def io_catch_def)
  obtain r w2 where wr: "writeFileSync e debug_html_path html ?w1 = (r, w2)"
    by (cases "writeFileSync e debug_html_path html ?w1")
  then have t2: "trace w2 = trace w @ [HttpGet url, WriteFile debug_html_path html]"
    by (auto simp: writeFileSync_def record_call_def Let_def split: option.splits)
  show ?thesis
  proof (cases r)
    case (Inl err)
    then have "run e url filename None w = (Inr [], w2)"
      using f wr by (simp add: run_def io_catch_def io_bind_def io_return_def)
    with t2 have "calls_made (run e url filename None) w =
        HttpGet url # WriteFile debug_html_path html # []"
      by (simp add: calls_made_def)
    then show ?thesis by blast
  next
    case (Inr u)
    from no_timeout_after_fetch [of e url html filename] obtain evs
      where ev: "trace (snd (?R w2)) = trace w2 @ evs"
      unfolding no_timeout_def by blast
    have "snd (run e url filename None w) = snd (io_catch ?R (\<lambda>error. io_return []) w2)"
      using f wr Inr by (simp add: run_def io_catch_def io_bind_def io_return_def)
    also have "\<dots> = snd (?R w2)"
      by (simp add: io_catch_def io_return_def split: prod.splits sum.splits)
    finally have "trace (snd (run e url filename None w)) =
        trace w @ (HttpGet url # WriteFile debug_html_path html # evs)"
      using ev t2 by simp
    then have "calls_made (run e url filename None) w =
        HttpGet url # WriteFile debug_html_path html # evs"
      by (rule calls_madeI)
    then show ?thesis by blast
  qed
qed


lemma calls_made_trace:
  assumes "\<exists>evs. trace (snd (m w)) = trace w @ evs"
  shows "trace (snd (m w)) = trace w @ calls_made m w"
  using assms by (auto simp: calls_made_def)

lemma crawl_site_calls:
  "trace (snd (crawl_site e st site)) =
     trace (snd st) @ calls_made (run e site None None) (snd st) @
       [SetTimeout (3000 + math_random e (random_draws (snd st)) * 5000)]"
proof -
  obtain r w' where r: "run e site None None (snd st) = (r, w')"
    by (cases "run e site None None (snd st)")
  from run_returns [of e site None None "snd st"] r obtain news where n: "r = Inr news"
    by auto
  from no_timeout_run [of e site None None]
  have "\<exists>evs. trace (snd (run e site None None (snd st))) = trace (snd st) @ evs"
    unfolding no_timeout_def by blast
  then have "trace w' = trace (snd st) @ calls_made (run e site None None) (snd st)"
    using calls_made_trace [of "run e site None None" "snd st"] r by simp
  moreover have "random_draws w' = random_draws (snd st)"
    using no_timeout_run [of e site None None] r unfolding no_timeout_def by (metis snd_conv)
  moreover have "crawl_site e st site = (fst st @ news, sleep_between e w')"
    using r n by (simp add: crawl_site_def)
  ultimately show ?thesis
    by (simp add: sleep_between_def record_call_def Let_def)
qed

lemma crawl_loop_writes_debug:
  assumes "site \<in> set sites" and "axios_get e site = Inr html"
  shows "\<exists>evs. trace (snd (foldl (crawl_site e) st sites)) = trace (snd st) @ evs \<and>
           WriteFile debug_html_path html \<in> set evs"
  using assms(1)
proof (induction sites arbitrary: st)
  case Nil
  then show ?case by simp
next
  case (Cons s sites)
  let ?st = "crawl_site e st s"
  let ?turn = "calls_made (run e s None None) (snd st) @
       [SetTimeout (3000 + math_random e (random_draws (snd st)) * 5000)]"
  have turn: "trace (snd ?st) = trace (snd st) @ ?turn"
    using crawl_site_calls [of e st s] by simp
  from crawl_loop_timeouts [of e ?st sites] obtain evs'
    where later: "trace (snd (foldl (crawl_site e) ?st sites)) = trace (snd ?st) @ evs'"
    by blast
  show ?case
  proof (cases "s = site")
    case True
    from run_calls_after_fetch [OF assms(2), of None "snd st"]
    have "WriteFile debug_html_path html \<in> set (calls_made (run e s None None) (snd st))"
      using True by auto
    then have "WriteFile debug_html_path html \<in> set (?turn @ evs')" by simp
    moreover have "trace (snd (foldl (crawl_site e) st (s # sites))) = trace (snd st) @ (?turn @ evs')"
      using turn later by simp
    ultimately show ?thesis by blast
  next
    case False
    with Cons.prems have "site \<in> set sites" by simp
    from Cons.IH [OF this, of ?st] obtain evs
      where "trace (snd (foldl (crawl_site e) ?st sites)) = trace (snd ?st) @ evs"
        and "WriteFile debug_html_path html \<in> set evs"
      by blast
    then have "trace (snd (foldl (crawl_site e) st (s # sites))) = trace (snd st) @ (?turn @ evs) \<and>
        WriteFile debug_html_path html \<in> set (?turn @ evs)"
      using turn by simp
    then show ?thesis by blast
  qed
qed

lemma main_on_writes_debug:
  assumes "site \<in> set sites" and "axios_get e site = Inr html"
  shows "WriteFile debug_html_path html \<in> set (calls_made (main_on e sites) w)"
proof -
  obtain allNews w1 where loop: "foldl (crawl_site e) ([], w) sites = (allNews, w1)"
    by (cases "foldl (crawl_site e) ([], w) sites")
  from crawl_loop_writes_debug [OF assms, of "([], w)"] loop obtain evs
    where 1: "trace w1 = trace w @ evs" "WriteFile debug_html_path html \<in> set evs"
    by auto
  let ?rest = "if length allNews > 0 then
       io_bind (io_new_Date e) (\<lambda>now.
       io_bind (saveToMarkdown e (Some allNews) (Some (dated_md_name now))) (\<lambda>_.
       io_bind (commitToGitHub e (dated_md_name now)) (\<lambda>_.
       io_return ())))
     else io_return ()"
  from no_timeout_after_loop [of allNews e] obtain evs'
    where 2: "trace (snd (?rest w1)) = trace w1 @ evs'"
    unfolding no_timeout_def by blast
  have "main_on e sites w = ?rest w1"
    using loop by (simp add: main_on_def io_bind_def)
  with 1 2 have "trace (snd (main_on e sites w)) = trace w @ (evs @ evs')"
    by simp
  then have "calls_made (main_on e sites) w = evs @ evs'"
    by (rule calls_madeI)
  with 1 show ?thesis by simp
qed

lemma dated_md_name_not_debug: "dated_md_name d \<noteq> debug_html_path"
proof
  assume "dated_md_name d = debug_html_path"
  then have "last (dated_md_name d) = last debug_html_path" by simp
  then show False by (simp add: dated_md_name_def debug_html_path_def ascii_def)
qed

lemma saveToMarkdown_default_keeps_debug:
  "files (snd (saveToMarkdown e newsItems None w)) debug_html_path = files w debug_html_path"
  using dated_md_name_not_debug dated_md_name_not_debug [symmetric]
  by (auto simp: saveToMarkdown_def md_filename_def build_mdContent_def io_bind_def io_catch_def
      io_return_def io_new_Date_def new_Date_def writeFileSync_def record_call_def Let_def
      split: option.splits sum.splits prod.splits)

lemma snd_io_catch_return: "snd (io_catch m (\<lambda>err. io_return x) w) = snd (m w)"
  by (simp add: io_catch_def io_return_def split: prod.splits sum.splits)

lemma snd_io_bind_return: "snd (io_bind m (\<lambda>x. io_return (f x)) w) = snd (m w)"
  by (simp add: io_bind_def io_return_def split: prod.splits sum.splits)

lemma io_bind_Inr: "m w = (Inr x, w') \<Longrightarrow> io_bind m f w = f x w'"
  by (simp add: io_bind_def)

lemma run_world_after_parse:
  assumes "fetchPage e url w = (Inr html, w1)"
    and "writeFileSync e debug_html_path html w1 = (Inr (), w2)"
    and "parseNews e url html w2 = (news, w3)"
  shows "snd (run e url filename None w) =
           (if length news > 0 then snd (saveToMarkdown e (Some news) filename w3) else w3)"
proof -
  let ?save = "if length news > 0
       then io_bind (saveToMarkdown e (Some news) filename) (\<lambda>_. io_return ())
       else io_return ()"
  let ?parse = "\<lambda>w. (let (newsItems, w') = parseNews e url html w in (Inr newsItems, w'))"
  let ?debug = "if (case None :: bool option of None \<Rightarrow> True | Some b \<Rightarrow> b)
       then writeFileSync e debug_html_path html else io_return ()"
  have p: "?parse w2 = (Inr news, w3)"
    using assms(3) by simp
  have d: "?debug w1 = (Inr (), w2)"
    using assms(2) by simp
  have "snd (run e url filename None w) = snd (io_bind ?save (\<lambda>_. io_return news) w3)"
    unfolding run_def snd_io_catch_return
    by (simp only: io_bind_Inr [where m = "fetchPage e url", OF assms(1)]
        io_bind_Inr [where m = ?debug, OF d] io_bind_Inr [where m = ?parse, OF p])
  also have "\<dots> = snd (?save w3)"
    by (rule snd_io_bind_return)
  also have "\<dots> = (if length news > 0 then snd (saveToMarkdown e (Some news) filename w3) else w3)"
    by (simp add: snd_io_bind_return) (simp add: io_return_def)
  finally show ?thesis .
qed

lemma run_default_debug_file:
  assumes "axios_get e url = Inr html" and "write_error e debug_html_path = None"
  shows "files (snd (run e url None None w)) debug_html_path = Some html"
proof -
  let ?w1 = "record_call (HttpGet url) w"
  let ?w2 = "snd (writeFileSync e debug_html_path html ?w1)"
  have f: "fetchPage e url w = (Inr html, ?w1)"
    using assms by (simp add: fetchPage_def io_catch_def)
  have wr: "writeFileSync e debug_html_path html ?w1 = (Inr (), ?w2)"
    and f2: "files ?w2 debug_html_path = Some html"
    using assms by (simp_all add: writeFileSync_def Let_def)
  obtain news w3 where p: "parseNews e url html ?w2 = (news, w3)"
    by (cases "parseNews e url html ?w2")
  with parseNews_world [of e url html ?w2] f2 have f3: "files w3 debug_html_path = Some html"
    by simp
  show ?thesis
    unfolding run_world_after_parse [OF f wr p]
    using f3 by (simp add: saveToMarkdown_default_keeps_debug)
qed

text \<open>
  C10. Leaving out the \<^verbatim>\<open>debug\<close> argument of \<^verbatim>\<open>run\<close> is the same as passing
  \<^verbatim>\<open>true\<close>. With the arguments left out, as \<^verbatim>\<open>main\<close> calls it, a fetch that succeeds is
  followed at once by the call that writes the fetched HTML to \<^verbatim>\<open>debug_html.html\<close>, and
  when that write does not fail the file holds this HTML at the end of \<^verbatim>\<open>run\<close>. In a run
  of \<^verbatim>\<open>main\<close> this write is made for every site whose fetch succeeds.
\<close>

theorem debug_html_written_by_default:
  "run e url filename None = run e url filename (Some True) \<and>
   (axios_get e url = Inr html \<longrightarrow>
      (\<exists>rest. calls_made (run e url None None) w =
         HttpGet url # WriteFile debug_html_path html # rest) \<and>
      (write_error e debug_html_path = None \<longrightarrow>
         files (snd (run e url None None w)) debug_html_path = Some html)) \<and>
   (site \<in> set sites \<longrightarrow> axios_get e site = Inr html' \<longrightarrow>
      WriteFile debug_html_path html' \<in> set (calls_made (main_on e sites) w))"
proof -
  have "run e url filename None = run e url filename (Some True)"
    by (simp add: run_def)
  then show ?thesis
    using run_calls_after_fetch run_default_debug_file main_on_writes_debug by blast
qed


theorem debug_html_written_by_default_witness:
  "axios_get sample_env sina_url = Inr (ascii ''<html></html>'') \<and>
   write_error sample_env debug_html_path = None \<and>
   files (snd (run sample_env sina_url None None sample_world)) debug_html_path =
     Some (ascii ''<html></html>'') \<and>
   axios_get sample_env qq_url = Inr (ascii ''<html></html>'') \<and>
   WriteFile debug_html_path (ascii ''<html></html>'') \<in>
     set (calls_made (main_on sample_env [sina_url, qq_url]) sample_world)"
proof -
  have a: "axios_get sample_env sina_url = Inr (ascii ''<html></html>'')"
    and b: "write_error sample_env debug_html_path = None"
    and c: "axios_get sample_env qq_url = Inr (ascii ''<html></html>'')"
    by (simp_all add: sample_env_def)
  have d: "qq_url \<in> set [sina_url, qq_url]" by simp
  note T = debug_html_written_by_default [where e = sample_env and url = sina_url
      and filename = None and html = "ascii ''<html></html>''" and w = sample_world
      and site = qq_url and sites = "[sina_url, qq_url]" and html' = "ascii ''<html></html>''"]
  from T a b
  have 1: "files (snd (run sample_env sina_url None None sample_world)) debug_html_path =
     Some (ascii ''<html></html>'')"
    by blast
  from T c d
  have 2: "WriteFile debug_html_path (ascii ''<html></html>'') \<in>
     set (calls_made (main_on sample_env [sina_url, qq_url]) sample_world)"
    by blast
  from a b c 1 2 show ?thesis by blast
qed

subsection \<open>Where the Markdown file is written\<close>




























end
